theory Spec2Isabelle
  imports Main
begin

section \<open>The remove command of the CLI (packages/cli/src/commands/remove.ts)\<close>

text \<open>
  The command is an asynchronous script over collaborators that live outside the file
  (the HTTP helpers, the argument parser, the validator, the terminal writers). The
  collaborators are the fields of one record \<open>env\<close>: a run of the command is a function
  of the answers they give. A promise is modelled by the way it settles, the output
  and the requests of a run by the list of events they leave, in the order in which
  the code issues them.
\<close>

subsection \<open>Strings\<close>

text \<open>
  A string is the list of its code units; \<open>char\<close> covers the code units below 256
  (ASCII and Latin-1), which is where the tokens of this command live.
\<close>

text \<open>\<open>Array.prototype.join\<close>.\<close>

fun join :: "string \<Rightarrow> string list \<Rightarrow> string" where
  "join sep [] = []"
| "join sep [x] = x"
| "join sep (x # y # ys) = x @ sep @ join sep (y # ys)"

text \<open>
  The characters \<open>String.prototype.trim\<close> strips, among the code units below 256:
  TAB, LF, VT, FF, CR, SPACE and NO-BREAK SPACE.
\<close>

definition isWhiteSpace :: "char \<Rightarrow> bool" where
  "isWhiteSpace c = ((of_char c :: nat) \<in> {9, 10, 11, 12, 13, 32, 160})"

definition trim :: "string \<Rightarrow> string" where
  "trim s = rev (dropWhile isWhiteSpace (rev (dropWhile isWhiteSpace s)))"

text \<open>
  \<open>String.prototype.toLowerCase\<close> on the code units below 256: A to Z and the
  Latin-1 capitals (0xC0 to 0xDE without the multiplication sign) move up by 32.
\<close>

definition toLowerChar :: "char \<Rightarrow> char" where
  "toLowerChar c =
     (let n = (of_char c :: nat)
      in if (65 \<le> n \<and> n \<le> 90) \<or> (192 \<le> n \<and> n \<le> 222 \<and> n \<noteq> 215)
         then char_of (n + 32) else c)"

definition toLowerCase :: "string \<Rightarrow> string" where
  "toLowerCase s = map toLowerChar s"

text \<open>A template literal prints an undefined value as the word \<open>undefined\<close>.\<close>

definition str :: "string option \<Rightarrow> string" where
  "str v = (case v of None \<Rightarrow> ''undefined'' | Some s \<Rightarrow> s)"

definition quoted :: "string \<Rightarrow> string" where
  "quoted s = [CHR 0x22] @ s @ [CHR 0x22]"

subsection \<open>Data\<close>

record Alias =
  alias_of :: string

text \<open>
  The lists \<open>deploymentList\<close> and \<open>projectList\<close> are typed \<open>any\<close>: they hold
  deployments, projects and, through \<open>.catch(err => err)\<close>, whatever a lookup was
  rejected with. \<open>entity\<close> is an object as this command reads it: whether it is an
  instance of \<open>NowError\<close>, and its properties \<open>id\<close>, \<open>name\<close>, \<open>url\<close>,
  \<open>createdAt\<close> and \<open>aliases\<close>, where \<open>None\<close> is JavaScript's \<open>undefined\<close> (for
  \<open>createdAt\<close>: anything that is no number). A value that is no object (\<open>null\<close>,
  \<open>undefined\<close>) is \<open>None\<close> of \<open>jsvalue\<close>.
\<close>

record entity =
  instanceofNowError :: bool
  id_of :: "string option"
  name_of :: "string option"
  url_of :: "string option"
  createdAt_of :: "int option"
  aliases_of :: "Alias list option"

type_synonym jsvalue = "entity option"

text \<open>How a promise settles: with a value, or rejected with a thrown value.\<close>

datatype 'a settled = Fulfilled 'a | Rejected jsvalue

text \<open>
  What \<open>main\<close> can throw: its own error for a missing context name, what a
  collaborator was rejected with, the \<open>TypeError\<close> of iterating over \<open>undefined\<close>, and
  the error \<open>ms\<close> throws when its argument is no finite number.
\<close>

datatype exn = ContextNameNotDefined | Rejection jsvalue | TypeError | MsError

text \<open>What awaiting a promise gives: a promise may also never settle.\<close>

datatype 'a awaited = Resolved 'a | Thrown exn | Pending

text \<open>The parsed command line: the flags and \<open>argv._\<close>.\<close>

record argv =
  opt_help :: bool
  opt_hard :: bool
  opt_yes :: bool
  opt_safe :: bool
  positional :: "string list"

text \<open>The requests to the API, with the arguments the code passes.\<close>

datatype call =
    GetScope
  | GetDeployment string string
  | GetProjectByIdOrName string
  | GetDeploymentsByProjectId "string option" nat bool
  | GetAliases "string option"
  | NowRemove "string option" bool
  | RemoveProject "string option"

datatype event =
    Call call
  | HandleError jsvalue
  | Help
  | OutError string
  | OutLog string
  | OutWarn string
  | OutSuccess string
  | OutPrint string
  | ConsoleLog string
  | Spinner string
  | StopSpinner

datatype outcome = Returned nat | Threw exn | Blocked

record result =
  outcome :: outcome
  trace :: "event list"

text \<open>
  The collaborators. Each request is answered as a function of its arguments.
  \<open>getArgs\<close> is the parse of \<open>client.argv.slice(2)\<close>; \<open>stdinData\<close> is the text of
  the first chunk standard input delivers, \<open>None\<close> when it never delivers one;
  \<open>findElapsed\<close> and \<open>removeElapsed\<close> are the two texts \<open>elapsed(Date.now() - ...)\<close>
  renders in this run; \<open>dateNow\<close> is the clock when the prompt is drawn, \<open>ms\<close> the
  rendering of a number of milliseconds, \<open>table\<close> is \<open>text-table\<close> with the options
  of line 294, the \<open>chalk\<close> fields the styles.
\<close>

record env =
  getArgs :: "argv settled"
  isValidName :: "string \<Rightarrow> bool"
  normalizeURL :: "string \<Rightarrow> string"
  getScope :: "string settled"
  getDeployment :: "string \<Rightarrow> string \<Rightarrow> jsvalue settled"
  getProjectByIdOrName :: "string \<Rightarrow> jsvalue settled"
  getDeploymentsByProjectId :: "string option \<Rightarrow> nat \<Rightarrow> bool \<Rightarrow> entity list settled"
  getAliases :: "string option \<Rightarrow> Alias list settled"
  nowRemove :: "string option \<Rightarrow> bool \<Rightarrow> unit settled"
  removeProject :: "string option \<Rightarrow> unit settled"
  stdinData :: "string option"
  getCommandName :: "string \<Rightarrow> string"
  plural :: "string \<Rightarrow> nat \<Rightarrow> bool \<Rightarrow> string"
  findElapsed :: string
  removeElapsed :: string
  dateNow :: int
  ms :: "int \<Rightarrow> string"
  table :: "string list list \<Rightarrow> string"
  chalkBold :: "string \<Rightarrow> string"
  chalkGray :: "string \<Rightarrow> string"
  chalkUnderline :: "string \<Rightarrow> string"
  chalkBoldRed :: "string \<Rightarrow> string"

subsection \<open>Promises\<close>

text \<open>
  \<open>Promise.all\<close>: the values in the order of the input, or a rejection. When several
  promises reject, the model takes the first in the order of the list.
\<close>

fun promiseAll :: "'a settled list \<Rightarrow> jsvalue + 'a list" where
  "promiseAll [] = Inr []"
| "promiseAll (Rejected err # rs) = Inl err"
| "promiseAll (Fulfilled v # rs) =
     (case promiseAll rs of Inl err \<Rightarrow> Inl err | Inr vs \<Rightarrow> Inr (v # vs))"

text \<open>\<open>.catch(err => err)\<close>: a rejection becomes the value of the promise.\<close>

definition catchErr :: "jsvalue settled \<Rightarrow> jsvalue" where
  "catchErr p = (case p of Fulfilled v \<Rightarrow> v | Rejected err \<Rightarrow> err)"

text \<open>The objects of a list of values that passed a filter which drops non-objects.\<close>

fun objects :: "jsvalue list \<Rightarrow> entity list" where
  "objects [] = []"
| "objects (None # vs) = objects vs"
| "objects (Some obj # vs) = obj # objects vs"

definition after :: "event list \<Rightarrow> result \<Rightarrow> result" where
  "after es r = r\<lparr>trace := es @ trace r\<rparr>"

subsection \<open>Resolution (lines 136 to 201)\<close>

text \<open>\<open>searchFilter\<close>, lines 137 to 143.\<close>

definition searchFilter :: "env \<Rightarrow> string list \<Rightarrow> jsvalue \<Rightarrow> bool" where
  "searchFilter env ids d =
     list_ex (\<lambda>i. case d of
                    None \<Rightarrow> False
                  | Some obj \<Rightarrow>
                      \<not> instanceofNowError obj \<and>
                      (id_of obj = Some i \<or> name_of obj = Some i \<or>
                       url_of obj = Some (normalizeURL env i))) ids"

text \<open>
  Lines 145 to 161: both lookups for every identifier, then the two filters. The
  callback of the first \<open>ids.map\<close> throws before any request when the context name is
  falsy. A rejected deployment lookup is caught; a rejected project lookup rejects
  the batch, after all lookups have been issued.
\<close>

definition lookup ::
  "env \<Rightarrow> string \<Rightarrow> string list \<Rightarrow> event list \<times> (exn + entity list \<times> entity list)" where
  "lookup env contextName ids =
     (if ids \<noteq> [] \<and> contextName = [] then ([], Inl ContextNameNotDefined)
      else
        let issued = map (\<lambda>idOrHost. Call (GetDeployment contextName idOrHost)) ids @
                     map (\<lambda>idOrName. Call (GetProjectByIdOrName idOrName)) ids;
            deploymentList = map (\<lambda>idOrHost. catchErr (getDeployment env contextName idOrHost)) ids
        in case promiseAll (map (\<lambda>idOrName. getProjectByIdOrName env idOrName) ids) of
             Inl err \<Rightarrow> (issued, Inl (Rejection err))
           | Inr projectList \<Rightarrow>
               (issued, Inr (objects (filter (searchFilter env ids) deploymentList),
                             objects (filter (searchFilter env ids) projectList))))"

text \<open>Lines 163 to 191: the projects become deployments under \<open>--safe\<close>.\<close>

definition expand ::
  "env \<Rightarrow> bool \<Rightarrow> entity list \<Rightarrow> entity list \<Rightarrow>
     event list \<times> (exn + entity list \<times> entity list)" where
  "expand env safe deployments projects =
     (if safe then
        let issued = map (\<lambda>project. Call (GetDeploymentsByProjectId (id_of project) 201 True))
                       projects
        in case promiseAll
                  (map (\<lambda>project. getDeploymentsByProjectId env (id_of project) 201 True)
                     projects) of
             Inl err \<Rightarrow> (issued, Inl (Rejection err))
           | Inr projectDeployments \<Rightarrow>
               let to = min (length projectDeployments) 201
               in (issued,
                   Inr (deployments @
                        concat (map (map (\<lambda>depl. depl\<lparr>aliases_of := Some []\<rparr>))
                                  (take to projectDeployments)),
                        []))
      else
        ([], Inr (filter (\<lambda>d. \<not> list_ex (\<lambda>p. name_of p = name_of d) projects) deployments,
                  projects)))"

text \<open>Lines 193 to 198.\<close>

definition fetchAliases :: "env \<Rightarrow> entity list \<Rightarrow> event list \<times> (exn + Alias list list)" where
  "fetchAliases env deployments =
     (map (\<lambda>depl. Call (GetAliases (id_of depl))) deployments,
      case promiseAll (map (\<lambda>depl. getAliases env (id_of depl)) deployments) of
        Inl err \<Rightarrow> Inl (Rejection err)
      | Inr aliases \<Rightarrow> Inr aliases)"

text \<open>The \<open>try\<close> block with its \<open>finally\<close>.\<close>

definition resolve ::
  "env \<Rightarrow> bool \<Rightarrow> string \<Rightarrow> string list \<Rightarrow>
     event list \<times> (exn + entity list \<times> entity list \<times> Alias list list)" where
  "resolve env safe contextName ids =
     (case lookup env contextName ids of
        (t1, Inl e) \<Rightarrow> (t1 @ [StopSpinner], Inl e)
      | (t1, Inr (deployments, projects)) \<Rightarrow>
          (case expand env safe deployments projects of
             (t2, Inl e) \<Rightarrow> (t1 @ t2 @ [StopSpinner], Inl e)
           | (t2, Inr (deployments', projects')) \<Rightarrow>
               (case fetchAliases env deployments' of
                  (t3, Inl e) \<Rightarrow> (t1 @ t2 @ t3 @ [StopSpinner], Inl e)
                | (t3, Inr aliases) \<Rightarrow>
                    (t1 @ t2 @ t3 @ [StopSpinner], Inr (deployments', projects', aliases)))))"

text \<open>
  Lines 203 to 210: the filter on the fetched aliases. \<open>aliases\<close> has one entry for
  each deployment, so position \<open>i\<close> of one list goes with position \<open>i\<close> of the other.
\<close>

definition filterAliases :: "bool \<Rightarrow> entity list \<Rightarrow> Alias list list \<Rightarrow> entity list" where
  "filterAliases safe deployments aliases =
     map (\<lambda>(match, a). match\<lparr>aliases_of := Some a\<rparr>)
       (filter (\<lambda>(match, a). \<not> (safe \<and> length a > 0)) (zip deployments aliases))"

subsection \<open>Messages\<close>

text \<open>\<open>deploymentsAndProjects\<close>, lines 338 to 355, with the default conjunction.\<close>

definition deploymentsAndProjects :: "env \<Rightarrow> entity list \<Rightarrow> entity list \<Rightarrow> string" where
  "deploymentsAndProjects env deployments projects =
     (if length projects = 0 then plural env ''deployment'' (length deployments) True
      else if length deployments = 0 then plural env ''project'' (length projects) True
      else plural env ''deployment'' (length deployments) True @ '' '' @
           ''and'' @ '' '' @ plural env ''project'' (length projects) True)"

definition notFoundMessage :: "env \<Rightarrow> bool \<Rightarrow> string list \<Rightarrow> string" where
  "notFoundMessage env safe ids =
     ''Could not find '' @ (if safe then ''unaliased'' else ''any'') @ '' deployments '' @
     ''or projects matching '' @
     join '', '' (map (\<lambda>i. chalkBold env (quoted i)) ids) @
     ''. Run '' @ getCommandName env ''ls'' @ '' to list.''"

definition volumeWarning :: string where
  "volumeWarning =
     ''Only 200 deployments can get deleted at once. '' @
     ''Please continue 10 minutes after deletion to remove the rest.''"

subsection \<open>The confirmation prompt (lines 273 to 336)\<close>

text \<open>
  Lines 299 to 306. Iterating over an undefined \<open>aliases\<close> throws; the warnings
  printed before that stay printed.
\<close>

fun aliasWarnings :: "env \<Rightarrow> entity list \<Rightarrow> event list \<times> exn option" where
  "aliasWarnings env [] = ([], None)"
| "aliasWarnings env (depl # rest) =
     (case aliases_of depl of
        None \<Rightarrow> ([], Some TypeError)
      | Some as \<Rightarrow>
          (case aliasWarnings env rest of
             (t, r) \<Rightarrow>
               (map (\<lambda>a. OutWarn (chalkUnderline env (''https://'' @ alias_of a) @
                                  '' is an alias for '' @ chalkBold env (str (url_of depl)) @
                                  '' and will be removed'')) as @ t,
                r)))"

text \<open>
  Lines 289 to 293, the rows of the table. \<open>Date.now() - depl.createdAt\<close> is no
  number when \<open>createdAt\<close> is none, and \<open>ms\<close> throws on it; a falsy \<open>url\<close> gives an
  empty cell.
\<close>

fun deploymentRows :: "env \<Rightarrow> entity list \<Rightarrow> exn + string list list" where
  "deploymentRows env [] = Inr []"
| "deploymentRows env (depl # rest) =
     (case createdAt_of depl of
        None \<Rightarrow> Inl MsError
      | Some created \<Rightarrow>
          let time = chalkGray env (ms env (dateNow env - created) @ '' ago'');
              url = (case url_of depl of
                       None \<Rightarrow> []
                     | Some u \<Rightarrow> if u = [] then [] else chalkUnderline env (''https://'' @ u))
          in case deploymentRows env rest of
               Inl e \<Rightarrow> Inl e
             | Inr rows \<Rightarrow> Inr ([''  '' @ str (id_of depl), url, time] # rows))"

text \<open>
  The executor of the promise runs at once: what it throws rejects the promise,
  after the output that came before and before standard input is read.
\<close>

definition readConfirmation ::
  "env \<Rightarrow> entity list \<Rightarrow> entity list \<Rightarrow> event list \<times> string awaited" where
  "readConfirmation env deployments projects =
     (let t0 = (if length deployments > 0
                then [OutLog (''The following '' @
                              plural env ''deployment'' (length deployments)
                                (length deployments > 1) @
                              '' will be permanently removed:'')]
                else [])
      in case (if length deployments > 0 then deploymentRows env deployments else Inr []) of
           Inl e \<Rightarrow> (t0, Thrown e)
         | Inr rows \<Rightarrow>
             let t1 = t0 @ (if length deployments > 0
                            then [OutPrint (table env rows @ [CHR 0x0A])]
                            else [])
             in case aliasWarnings env deployments of
                  (t2, Some e) \<Rightarrow> (t1 @ t2, Thrown e)
                | (t2, None) \<Rightarrow>
                    let t3 = (if length projects > 0
                              then ConsoleLog (''The following '' @
                                               plural env ''project'' (length projects)
                                                 (length projects > 1) @
                                               '' will be permanently removed, '' @
                                               ''including all '' @
                                               (if length projects > 1 then ''their''
                                                else ''its'') @
                                               '' deployments and aliases:'') #
                                   map (\<lambda>project.
                                          ConsoleLog (chalkGray env ''-'' @ '' '' @
                                                      chalkBold env (str (name_of project))))
                                     projects
                              else []);
                        t4 = [OutPrint (chalkBoldRed env ''> Are you sure?'' @ '' '' @
                                        chalkGray env ''[y/N] '')]
                    in (t1 @ t2 @ t3 @ t4,
                        case stdinData env of
                          None \<Rightarrow> Pending
                        | Some d \<Rightarrow> Resolved (trim d)))"

subsection \<open>The command (lines 75 to 271)\<close>

text \<open>The local variables of \<open>main\<close> at line 211, and the events so far.\<close>

record found =
  found_hard :: bool
  found_skipConfirmation :: bool
  found_safe :: bool
  found_ids :: "string list"
  found_contextName :: string
  found_deployments :: "entity list"
  found_projects :: "entity list"
  found_events :: "event list"

text \<open>
  Lines 76 to 210: the arguments, the validation, the scope, the resolution and
  the filter on aliases. \<open>Inl\<close> is a run that ends there.
\<close>

definition discover :: "env \<Rightarrow> result + found" where
  "discover env =
     (case getArgs env of
        Rejected error \<Rightarrow> Inl \<lparr>outcome = Returned 1, trace = [HandleError error]\<rparr>
      | Fulfilled argv \<Rightarrow>
          let ids = drop 1 (positional argv);
              hard = opt_hard argv;
              skipConfirmation = opt_yes argv;
              safe = opt_safe argv
          in if opt_help argv \<or> take 1 ids = [''help'']
             then Inl \<lparr>outcome = Returned 2, trace = [Help]\<rparr>
             else if length ids < 1
             then Inl \<lparr>outcome = Returned 1,
                       trace = [OutError (getCommandName env ''rm'' @
                                          '' expects at least one argument''), Help]\<rparr>
             else
               let invalidName = List.find (\<lambda>name. \<not> isValidName env name) ids
               in if invalidName \<noteq> None \<and> invalidName \<noteq> Some []
                  then Inl \<lparr>outcome = Returned 1,
                            trace = [OutError (''The provided argument '' @
                                               quoted (str invalidName) @
                                               '' is not a valid deployment or project'')]\<rparr>
                  else
                    (case getScope env of
                       Rejected err \<Rightarrow>
                         Inl \<lparr>outcome = Threw (Rejection err), trace = [Call GetScope]\<rparr>
                     | Fulfilled contextName \<Rightarrow>
                         let t0 = [Call GetScope,
                                   Spinner (''Fetching deployment(s) '' @
                                            join '' '' (map quoted ids) @ '' in '' @
                                            chalkBold env contextName)]
                         in (case resolve env safe contextName ids of
                               (t, Inl e) \<Rightarrow> Inl \<lparr>outcome = Threw e, trace = t0 @ t\<rparr>
                             | (t, Inr (deployments, projects, aliases)) \<Rightarrow>
                                 Inr \<lparr>found_hard = hard,
                                      found_skipConfirmation = skipConfirmation,
                                      found_safe = safe,
                                      found_ids = ids,
                                      found_contextName = contextName,
                                      found_deployments =
                                        filterAliases safe deployments aliases,
                                      found_projects = projects,
                                      found_events = t0 @ t\<rparr>)))"

text \<open>Lines 246 to 270: every deletion is issued, then awaited together.\<close>

definition execute :: "env \<Rightarrow> bool \<Rightarrow> entity list \<Rightarrow> entity list \<Rightarrow> result" where
  "execute env hard deployments projects =
     (let issued = map (\<lambda>depl. Call (NowRemove (id_of depl) hard)) deployments @
                   map (\<lambda>project. Call (RemoveProject (id_of project))) projects
      in case promiseAll (map (\<lambda>depl. nowRemove env (id_of depl) hard) deployments @
                          map (\<lambda>project. removeProject env (id_of project)) projects) of
           Inl err \<Rightarrow> \<lparr>outcome = Threw (Rejection err), trace = issued\<rparr>
         | Inr _ \<Rightarrow>
             \<lparr>outcome = Returned 0,
              trace = issued @
                [OutSuccess (''Removed '' @ deploymentsAndProjects env deployments projects @
                             '' '' @ removeElapsed env)] @
                map (\<lambda>depl. ConsoleLog (chalkGray env ''-'' @ '' '' @
                                        chalkBold env (str (url_of depl)))) deployments @
                map (\<lambda>project. ConsoleLog (chalkGray env ''-'' @ '' '' @
                                           chalkBold env (str (name_of project)))) projects\<rparr>)"

text \<open>Lines 212 to 270.\<close>

definition conclude :: "env \<Rightarrow> found \<Rightarrow> result" where
  "conclude env f =
     (let deployments = found_deployments f; projects = found_projects f
      in if length deployments = 0 \<and> length projects = 0
         then \<lparr>outcome = Returned 1,
               trace = [OutLog (notFoundMessage env (found_safe f) (found_ids f))]\<rparr>
         else
           after
             ([OutLog (''Found '' @ deploymentsAndProjects env deployments projects @
                       '' for removal in '' @ chalkBold env (found_contextName f) @
                       '' '' @ findElapsed env)] @
              (if length deployments > 200 then [OutWarn volumeWarning] else []))
             (if \<not> found_skipConfirmation f
              then (case readConfirmation env deployments projects of
                      (t, Pending) \<Rightarrow> \<lparr>outcome = Blocked, trace = t\<rparr>
                    | (t, Thrown e) \<Rightarrow> \<lparr>outcome = Threw e, trace = t\<rparr>
                    | (t, Resolved line) \<Rightarrow>
                        let confirmation = toLowerCase line
                        in if confirmation \<noteq> ''y'' \<and> confirmation \<noteq> ''yes''
                           then \<lparr>outcome = Returned 1, trace = t @ [OutLog ''Canceled'']\<rparr>
                           else after t (execute env (found_hard f) deployments projects))
              else execute env (found_hard f) deployments projects))"

definition main :: "env \<Rightarrow> result" where
  "main env =
     (case discover env of
        Inl r \<Rightarrow> r
      | Inr f \<Rightarrow> after (found_events f) (conclude env f))"

subsection \<open>Observing a run\<close>

text \<open>The deletion requests of a trace, and all its requests.\<close>

fun isDeletion :: "event \<Rightarrow> bool" where
  "isDeletion (Call (NowRemove i h)) = True"
| "isDeletion (Call (RemoveProject i)) = True"
| "isDeletion e = False"

fun isRequest :: "event \<Rightarrow> bool" where
  "isRequest (Call c) = True"
| "isRequest e = False"

subsection \<open>Sample runs\<close>

text \<open>
  An account \<open>acme\<close> with the deployment \<open>abc123\<close>, a deployment named \<open>my-app\<close>,
  and the project \<open>my-app\<close> with two deployments, the first of which has an alias.
  Unknown deployments are rejected with a \<open>NowError\<close>, unknown projects come back
  as one.
\<close>

definition notFound :: entity where
  "notFound = \<lparr>instanceofNowError = True, id_of = None, name_of = None, url_of = None,
               createdAt_of = None, aliases_of = None\<rparr>"

definition deployment :: "string \<Rightarrow> string \<Rightarrow> entity" where
  "deployment i n = \<lparr>instanceofNowError = False, id_of = Some i, name_of = Some n,
                     url_of = Some (i @ ''.vercel.app''), createdAt_of = Some 1000,
                     aliases_of = None\<rparr>"

definition project :: "string \<Rightarrow> string \<Rightarrow> entity" where
  "project i n = \<lparr>instanceofNowError = False, id_of = Some i, name_of = Some n,
                  url_of = None, createdAt_of = Some 1000, aliases_of = None\<rparr>"

definition sampleArgv :: "bool \<Rightarrow> bool \<Rightarrow> string list \<Rightarrow> argv" where
  "sampleArgv safe yes ids =
     \<lparr>opt_help = False, opt_hard = False, opt_yes = yes, opt_safe = safe,
      positional = ''rm'' # ids\<rparr>"

definition sampleEnv :: "argv \<Rightarrow> string option \<Rightarrow> env" where
  "sampleEnv a input =
     \<lparr>getArgs = Fulfilled a,
      isValidName = (\<lambda>n. \<not> list_ex (\<lambda>c. c \<in> set '':/#?&@%+~'') n),
      normalizeURL = (\<lambda>u. u),
      getScope = Fulfilled ''acme'',
      getDeployment = (\<lambda>c i.
        if i = ''abc123'' then Fulfilled (Some (deployment ''abc123'' ''api''))
        else if i = ''my-app'' then Fulfilled (Some (deployment ''dpl_0'' ''my-app''))
        else Rejected (Some notFound)),
      getProjectByIdOrName = (\<lambda>i.
        if i = ''my-app'' then Fulfilled (Some (project ''prj_1'' ''my-app''))
        else Fulfilled (Some notFound)),
      getDeploymentsByProjectId = (\<lambda>p m c.
        if p = Some ''prj_1''
        then Fulfilled [deployment ''dpl_1'' ''my-app'', deployment ''dpl_2'' ''my-app'']
        else Fulfilled []),
      getAliases = (\<lambda>i.
        if i = Some ''dpl_1'' then Fulfilled [\<lparr>alias_of = ''my-app.example.com''\<rparr>]
        else Fulfilled []),
      nowRemove = (\<lambda>i h. Fulfilled ()),
      removeProject = (\<lambda>i. Fulfilled ()),
      stdinData = input,
      getCommandName = (\<lambda>c. ''vercel '' @ c),
      plural = (\<lambda>w n inclusive. if n = 1 then w else w @ ''s''),
      findElapsed = ''[1s]'',
      removeElapsed = ''[2s]'',
      dateNow = 61000,
      ms = (\<lambda>n. if n = 60000 then ''1m'' else ''1d''),
      table = (\<lambda>rows. join [CHR 0x0A] (map (join ''  '') rows)),
      chalkBold = (\<lambda>s. s),
      chalkGray = (\<lambda>s. s),
      chalkUnderline = (\<lambda>s. s),
      chalkBoldRed = (\<lambda>s. s)\<rparr>"

definition safeRun :: env where
  "safeRun = sampleEnv (sampleArgv True False [''abc123'', ''my-app'']) (Some ''y'')"

definition plainRun :: env where
  "plainRun = sampleEnv (sampleArgv False False [''abc123'', ''my-app'']) (Some ''yes'')"

definition ghostRun :: env where
  "ghostRun = sampleEnv (sampleArgv True False [''ghost'']) None"

definition bulkRun :: env where
  "bulkRun = sampleEnv (sampleArgv False True (replicate 201 ''abc123'')) None"

definition paddedRun :: env where
  "paddedRun = sampleEnv (sampleArgv False False [''abc123'']) (Some ''  Y  '')"

definition declinedRun :: env where
  "declinedRun = sampleEnv (sampleArgv False False [''abc123'']) (Some ''maybe'')"

definition newlineRun :: env where
  "newlineRun = sampleEnv (sampleArgv False False [''abc123'']) (Some ('' yes'' @ [CHR 0x0A]))"

definition helpRun :: env where
  "helpRun = sampleEnv (sampleArgv False False [''help'', ''b@d'']) None"

definition invalidRun :: env where
  "invalidRun = sampleEnv (sampleArgv False False [''abc123'', ''b@d'']) None"

text \<open>
  A plain \<open>Error\<close> object: no \<open>NowError\<close>, and its \<open>name\<close> property is the word
  \<open>Error\<close>.
\<close>

definition plainError :: entity where
  "plainError = \<lparr>instanceofNowError = False, id_of = None, name_of = Some ''Error'',
                 url_of = None, createdAt_of = None, aliases_of = None\<rparr>"

text \<open>The project lookup of \<open>my-app\<close> is rejected.\<close>

definition flakyRun :: env where
  "flakyRun =
     (sampleEnv (sampleArgv False True [''abc123'', ''my-app'']) None)
       \<lparr>getProjectByIdOrName :=
          (\<lambda>i. if i = ''my-app'' then Rejected (Some plainError)
                else Fulfilled (Some notFound))\<rparr>"

text \<open>Every deployment lookup is rejected with a plain \<open>Error\<close>.\<close>

definition errorRun :: env where
  "errorRun =
     (sampleEnv (sampleArgv False True [''Error'']) None)
       \<lparr>getDeployment := (\<lambda>c i. Rejected (Some plainError))\<rparr>"

text \<open>The same without \<open>--yes\<close>, and \<open>y\<close> waiting on standard input.\<close>

definition errorPromptRun :: env where
  "errorPromptRun =
     (sampleEnv (sampleArgv False False [''Error'']) (Some ''y''))
       \<lparr>getDeployment := (\<lambda>c i. Rejected (Some plainError))\<rparr>"




text \<open>
  What one settled lookup contributes to the matches, and the values the lookups
  report a failure with: a \<open>NowError\<close>, or no object at all.
\<close>

definition matches :: "env \<Rightarrow> string list \<Rightarrow> jsvalue \<Rightarrow> entity list" where
  "matches env ids v = objects (filter (searchFilter env ids) [v])"

definition typedFailure :: "jsvalue \<Rightarrow> bool" where
  "typedFailure v = (case v of None \<Rightarrow> True | Some obj \<Rightarrow> instanceofNowError obj)"

section \<open>Properties\<close>

subsection \<open>Promises\<close>

lemma promiseAll_Inr: "promiseAll rs = Inr vs \<Longrightarrow> rs = map Fulfilled vs"
  by (induction rs arbitrary: vs rule: promiseAll.induct) (auto split: sum.splits)

lemma promiseAll_length: "promiseAll rs = Inr vs \<Longrightarrow> length vs = length rs"
  by (drule promiseAll_Inr) simp

lemma promiseAll_rejected:
  "Rejected e \<in> set rs \<Longrightarrow> \<exists>e'. promiseAll rs = Inl e'"
  by (induction rs rule: promiseAll.induct) (auto split: sum.splits)

lemma promiseAll_all_fulfilled:
  "\<forall>x \<in> set xs. \<exists>v. g x = Fulfilled v \<Longrightarrow>
   promiseAll (map g xs) = Inr (map (\<lambda>x. case g x of Fulfilled v \<Rightarrow> v) xs)"
  by (induction xs) auto


lemma promiseAll_replicate: "promiseAll (replicate n (Fulfilled v)) = Inr (replicate n v)"
  by (induction n) auto

subsection \<open>Lists of values\<close>

lemma objects_filter_concat:
  "objects (filter P vs) = concat (map (\<lambda>v. objects (filter P [v])) vs)"
  by (induction vs rule: objects.induct) auto



lemma objects_replicate: "objects (replicate n (Some x)) = replicate n x"
  by (induction n) auto

lemma list_ex_replicate: "list_ex P (replicate n x) \<longleftrightarrow> 0 < n \<and> P x"
  by (auto simp: list_ex_iff)

lemma find_replicate: "List.find P (replicate n x) = (if 0 < n \<and> P x then Some x else None)"
  by (induction n) auto


lemma matched_objects:
  "objects (filter (searchFilter env ids) (map g xs)) =
   concat (map (\<lambda>x. matches env ids (g x)) xs)"
  by (subst objects_filter_concat) (simp add: matches_def comp_def)

lemma typedFailure_matches: "typedFailure v \<Longrightarrow> matches env ids v = []"
  by (cases v) (auto simp: typedFailure_def matches_def searchFilter_def list_ex_iff)



subsection \<open>The phases of the resolution\<close>

lemma fetchAliases_length:
  "fetchAliases env ds = (t, Inr als) \<Longrightarrow> length als = length ds"
  by (auto simp: fetchAliases_def split: sum.splits dest: promiseAll_length)

lemma resolve_length:
  "resolve env safe c ids = (t, Inr (ds, ps, als)) \<Longrightarrow> length als = length ds"
  by (auto simp: resolve_def split: prod.splits sum.splits dest: fetchAliases_length)

text \<open>What a run that reaches line 211 has gone through.\<close>

lemma discover_Inr:
  assumes "discover env = Inr f"
  shows "\<exists>a t ds ps als.
           getArgs env = Fulfilled a \<and>
           found_hard f = opt_hard a \<and>
           found_skipConfirmation f = opt_yes a \<and>
           found_safe f = opt_safe a \<and>
           found_ids f = drop 1 (positional a) \<and>
           found_ids f \<noteq> [] \<and>
           getScope env = Fulfilled (found_contextName f) \<and>
           resolve env (found_safe f) (found_contextName f) (found_ids f) =
             (t, Inr (ds, ps, als)) \<and>
           found_deployments f = filterAliases (found_safe f) ds als \<and>
           found_projects f = ps \<and>
           found_events f =
             [Call GetScope,
              Spinner (''Fetching deployment(s) '' @ join '' '' (map quoted (found_ids f)) @
                       '' in '' @ chalkBold env (found_contextName f))] @ t"
  using assms
  by (auto simp: discover_def Let_def split: settled.splits if_splits prod.splits sum.splits)

lemma filterAliases_safe:
  "filterAliases True ds als =
     map (\<lambda>d. d\<lparr>aliases_of := Some []\<rparr>) (map fst (filter (\<lambda>(d, a). a = []) (zip ds als)))"
  by (induction ds als rule: list_induct2') (auto simp: filterAliases_def)

lemma filterAliases_unsafe:
  "filterAliases False ds als = map (\<lambda>(d, a). d\<lparr>aliases_of := Some a\<rparr>) (zip ds als)"
  by (simp add: filterAliases_def)

lemma filterAliases_aliases:
  "d \<in> set (filterAliases safe ds als) \<Longrightarrow> aliases_of d \<noteq> None"
  by (auto simp: filterAliases_def)


lemma discover_aliases_defined:
  "discover env = Inr f \<Longrightarrow> \<forall>d \<in> set (found_deployments f). aliases_of d \<noteq> None"
  by (drule discover_Inr) (auto dest: filterAliases_aliases)

lemma resolve_safe_projects:
  "resolve env True c ids = (t, Inr (ds, ps, als)) \<Longrightarrow> ps = []"
  by (auto simp: resolve_def expand_def Let_def split: prod.splits sum.splits)

lemma resolve_unsafe:
  assumes "resolve env False c ids = (t, Inr (ds, ps, als))"
  shows "\<exists>t1 matched. lookup env c ids = (t1, Inr (matched, ps)) \<and>
           ds = filter (\<lambda>d. name_of d \<notin> name_of ` set ps) matched \<and> length als = length ds"
proof -
  have ex: "list_ex (\<lambda>p. name_of p = name_of d) ps \<longleftrightarrow> name_of d \<in> name_of ` set ps" for d
    unfolding list_ex_iff image_iff by metis
  from assms resolve_length [OF assms] show ?thesis
    by (auto simp: resolve_def expand_def ex split: prod.splits sum.splits)
qed

lemma forget_aliases_zip:
  "length als = length ds \<Longrightarrow>
   map (\<lambda>d. d\<lparr>aliases_of := None\<rparr>) (map (\<lambda>(d, a). d\<lparr>aliases_of := Some a\<rparr>) (zip ds als)) =
   map (\<lambda>d. d\<lparr>aliases_of := None\<rparr>) ds"
  by (induction ds als rule: list_induct2') auto

lemma name_of_zip:
  "d \<in> set (map (\<lambda>(d, a). d\<lparr>aliases_of := Some a\<rparr>) (zip ds als)) \<Longrightarrow>
   name_of d \<in> name_of ` set ds"
  by (auto dest!: set_zip_leftD)


subsection \<open>Requests and deletions of a trace\<close>

lemma isDeletion_isRequest: "isDeletion e \<Longrightarrow> isRequest e"
  by (cases e rule: isDeletion.cases) auto

lemma no_request_no_deletion: "filter isRequest es = [] \<Longrightarrow> filter isDeletion es = []"
  by (auto simp: filter_empty_conv dest: isDeletion_isRequest)

lemma aliasWarnings_no_request: "filter isRequest (fst (aliasWarnings env ds)) = []"
  by (induction ds) (auto split: option.splits prod.splits simp: filter_empty_conv)

lemma aliasWarnings_defined:
  "\<forall>d \<in> set ds. aliases_of d \<noteq> None \<Longrightarrow> snd (aliasWarnings env ds) = None"
  by (induction ds) (auto split: option.splits prod.splits)

lemma deploymentRows_defined:
  "\<forall>d \<in> set ds. createdAt_of d \<noteq> None \<Longrightarrow> \<exists>rows. deploymentRows env ds = Inr rows"
  by (induction ds) (auto simp: Let_def)

lemma readConfirmation_no_request: "filter isRequest (fst (readConfirmation env ds ps)) = []"
  using aliasWarnings_no_request [of env ds]
  by (auto simp: readConfirmation_def Let_def filter_empty_conv
      split: prod.splits option.splits sum.splits)

lemma readConfirmation_no_deletion:
  "readConfirmation env ds ps = (t, r) \<Longrightarrow> filter isDeletion t = []"
  using readConfirmation_no_request [of env ds ps, THEN no_request_no_deletion] by simp

lemma readConfirmation_line:
  assumes "\<forall>d \<in> set ds. createdAt_of d \<noteq> None"
    and "\<forall>d \<in> set ds. aliases_of d \<noteq> None"
    and "stdinData env = Some d"
  shows "snd (readConfirmation env ds ps) = Resolved (trim d)"
proof -
  from deploymentRows_defined [OF assms(1)] obtain rows where
    "deploymentRows env ds = Inr rows" by blast
  with aliasWarnings_defined [OF assms(2), of env] assms(3) show ?thesis
    by (auto simp: readConfirmation_def Let_def split: prod.splits option.splits)
qed

lemma lookup_no_deletion: "lookup env c ids = (t, r) \<Longrightarrow> filter isDeletion t = []"
  by (auto simp: lookup_def Let_def filter_empty_conv split: sum.splits if_splits)

lemma expand_no_deletion: "expand env safe ds ps = (t, r) \<Longrightarrow> filter isDeletion t = []"
  by (auto simp: expand_def Let_def filter_empty_conv split: sum.splits if_splits)

lemma fetchAliases_no_deletion: "fetchAliases env ds = (t, r) \<Longrightarrow> filter isDeletion t = []"
  by (auto simp: fetchAliases_def filter_empty_conv)

lemma resolve_no_deletion: "resolve env safe c ids = (t, r) \<Longrightarrow> filter isDeletion t = []"
  by (auto simp: resolve_def split: prod.splits sum.splits
      dest: lookup_no_deletion expand_no_deletion fetchAliases_no_deletion)

lemma discover_no_deletion: "discover env = Inr f \<Longrightarrow> filter isDeletion (found_events f) = []"
  by (drule discover_Inr) (auto dest: resolve_no_deletion)

lemma execute_deletions:
  "filter isDeletion (trace (execute env h ds ps)) =
     map (\<lambda>d. Call (NowRemove (id_of d) h)) ds @ map (\<lambda>p. Call (RemoveProject (id_of p))) ps"
  by (auto simp: execute_def Let_def filter_map comp_def filter_empty_conv split: sum.splits)

lemma execute_outcome:
  "outcome (execute env h ds ps) =
     (case promiseAll (map (\<lambda>d. nowRemove env (id_of d) h) ds @
                       map (\<lambda>p. removeProject env (id_of p)) ps) of
        Inl err \<Rightarrow> Threw (Rejection err)
      | Inr vs \<Rightarrow> Returned 0)"
  by (simp add: execute_def Let_def split: sum.splits)

lemma conclude_deletions:
  "filter isDeletion (trace (conclude env f)) = [] \<or>
   filter isDeletion (trace (conclude env f)) =
     map (\<lambda>d. Call (NowRemove (id_of d) (found_hard f))) (found_deployments f) @
     map (\<lambda>p. Call (RemoveProject (id_of p))) (found_projects f)"
  using readConfirmation_no_request [of env "found_deployments f" "found_projects f",
      THEN no_request_no_deletion]
  by (auto simp: conclude_def Let_def after_def execute_deletions
      split: prod.splits awaited.splits)

lemma main_found:
  "discover env = Inr f \<Longrightarrow>
   outcome (main env) = outcome (conclude env f) \<and>
   trace (main env) = found_events f @ trace (conclude env f)"
  by (simp add: main_def after_def)

subsection \<open>After the resolution\<close>

lemma conclude_empty:
  "found_deployments f = [] \<Longrightarrow> found_projects f = [] \<Longrightarrow>
   conclude env f =
     \<lparr>outcome = Returned 1,
      trace = [OutLog (notFoundMessage env (found_safe f) (found_ids f))]\<rparr>"
  by (simp add: conclude_def)

lemma conclude_warns:
  "200 < length (found_deployments f) \<Longrightarrow> OutWarn volumeWarning \<in> set (trace (conclude env f))"
  by (auto simp: conclude_def Let_def after_def)

lemma conclude_skipped:
  assumes "found_deployments f \<noteq> [] \<or> found_projects f \<noteq> []"
    and "found_skipConfirmation f"
  shows "outcome (conclude env f) =
           outcome (execute env (found_hard f) (found_deployments f) (found_projects f)) \<and>
         filter isDeletion (trace (conclude env f)) =
           map (\<lambda>d. Call (NowRemove (id_of d) (found_hard f))) (found_deployments f) @
           map (\<lambda>p. Call (RemoveProject (id_of p))) (found_projects f)"
  using assms by (auto simp: conclude_def Let_def after_def execute_deletions)

lemma conclude_accepted:
  assumes "found_deployments f \<noteq> [] \<or> found_projects f \<noteq> []"
    and "snd (readConfirmation env (found_deployments f) (found_projects f)) = Resolved line"
    and "toLowerCase line = ''y'' \<or> toLowerCase line = ''yes''"
  shows "outcome (conclude env f) =
           outcome (execute env (found_hard f) (found_deployments f) (found_projects f)) \<and>
         filter isDeletion (trace (conclude env f)) =
           map (\<lambda>d. Call (NowRemove (id_of d) (found_hard f))) (found_deployments f) @
           map (\<lambda>p. Call (RemoveProject (id_of p))) (found_projects f)"
proof -
  obtain t where r: "readConfirmation env (found_deployments f) (found_projects f) =
      (t, Resolved line)"
    using assms(2) by (cases "readConfirmation env (found_deployments f) (found_projects f)") auto
  from readConfirmation_no_deletion [OF r] r assms(1,3) show ?thesis
    by (auto simp: conclude_def Let_def after_def execute_deletions)
qed

lemma conclude_declined:
  assumes "found_deployments f \<noteq> [] \<or> found_projects f \<noteq> []"
    and "\<not> found_skipConfirmation f"
    and "snd (readConfirmation env (found_deployments f) (found_projects f)) = Resolved line"
    and "toLowerCase line \<noteq> ''y''" and "toLowerCase line \<noteq> ''yes''"
  shows "outcome (conclude env f) = Returned 1 \<and>
         filter isDeletion (trace (conclude env f)) = [] \<and>
         trace (conclude env f) \<noteq> [] \<and>
         last (trace (conclude env f)) = OutLog ''Canceled''"
proof -
  obtain t where r: "readConfirmation env (found_deployments f) (found_projects f) =
      (t, Resolved line)"
    using assms(3) by (cases "readConfirmation env (found_deployments f) (found_projects f)") auto
  from readConfirmation_no_deletion [OF r] r assms(1,2,4,5) show ?thesis
    by (auto simp: conclude_def Let_def after_def)
qed

text \<open>A table that cannot be drawn ends the run before anything is read or deleted.\<close>

lemma conclude_table_throws:
  assumes "found_deployments f \<noteq> []" and "\<not> found_skipConfirmation f"
    and "deploymentRows env (found_deployments f) = Inl e"
  shows "outcome (conclude env f) = Threw e \<and> filter isDeletion (trace (conclude env f)) = []"
  using assms by (auto simp: conclude_def Let_def after_def readConfirmation_def)

lemma errorPromptRun_throws:
  "found_deployments (projr (discover errorPromptRun)) = [plainError\<lparr>aliases_of := Some []\<rparr>] \<and>
   outcome (main errorPromptRun) = Threw MsError \<and>
   filter isDeletion (trace (main errorPromptRun)) = []"
  by code_simp

subsection \<open>Trimming and lowercasing\<close>

lemma isWhiteSpace_toLowerChar: "isWhiteSpace c \<Longrightarrow> toLowerChar c = c"
  by (auto simp: isWhiteSpace_def toLowerChar_def Let_def)

lemma toLowerChar_letter:
  "toLowerChar c = k \<Longrightarrow> \<not> isWhiteSpace k \<Longrightarrow> \<not> isWhiteSpace c"
  using isWhiteSpace_toLowerChar [of c] by auto

lemma letters_not_space: "\<not> isWhiteSpace CHR ''y''" "\<not> isWhiteSpace CHR ''s''"
  by (simp_all add: isWhiteSpace_def)

lemma accepted_shape:
  assumes "toLowerCase s = ''y'' \<or> toLowerCase s = ''yes''"
  shows "s \<noteq> [] \<and> \<not> isWhiteSpace (hd s) \<and> \<not> isWhiteSpace (last s)"
  using assms letters_not_space
  by (auto simp: toLowerCase_def dest: toLowerChar_letter)

lemma dropWhile_padding:
  "\<forall>c \<in> set lead. P c \<Longrightarrow> s \<noteq> [] \<Longrightarrow> \<not> P (hd s) \<Longrightarrow> dropWhile P (lead @ s) = s"
  by (cases s) (auto simp: dropWhile_append3 dropWhile_append)

lemma trim_padding:
  assumes "\<forall>c \<in> set lead. isWhiteSpace c" and "\<forall>c \<in> set trail. isWhiteSpace c"
    and "s \<noteq> []" and "\<not> isWhiteSpace (hd s)" and "\<not> isWhiteSpace (last s)"
  shows "trim (lead @ s @ trail) = s"
proof -
  have 1: "dropWhile isWhiteSpace (lead @ s @ trail) = s @ trail"
    using assms(1,3,4) by (intro dropWhile_padding) auto
  have 2: "dropWhile isWhiteSpace (rev trail @ rev s) = rev s"
    using assms(2,3,5) by (intro dropWhile_padding) (auto simp: hd_rev)
  show ?thesis by (simp add: trim_def 1 2)
qed

subsection \<open>The sample runs with many identifiers\<close>

lemma discover_bulk:
  "0 < n \<Longrightarrow>
   \<exists>es. discover (sampleEnv (sampleArgv False True (replicate n ''abc123'')) None) =
     Inr \<lparr>found_hard = False, found_skipConfirmation = True, found_safe = False,
          found_ids = replicate n ''abc123'', found_contextName = ''acme'',
          found_deployments = replicate n ((deployment ''abc123'' ''api'')\<lparr>aliases_of := Some []\<rparr>),
          found_projects = [], found_events = es\<rparr>"
  by (simp add: discover_def sampleEnv_def sampleArgv_def Let_def find_replicate
      list_ex_replicate resolve_def lookup_def expand_def fetchAliases_def filterAliases_def
      searchFilter_def catchErr_def promiseAll_replicate objects_replicate
      deployment_def project_def notFound_def min_def)






section \<open>The claims\<close>

text \<open>
  Claim C1. Under \<open>--safe\<close>, every deployment of the final removal set has an empty
  alias list: the set is made of the candidates whose fetched alias list is empty, so
  a candidate with a fetched alias is dropped.
\<close>

theorem safe_removal_set_alias_free:
  assumes "discover env = Inr f" and "found_safe f"
  shows "(\<forall>d \<in> set (found_deployments f). aliases_of d = Some []) \<and>
         (\<exists>t candidates projects fetched.
            resolve env True (found_contextName f) (found_ids f) =
              (t, Inr (candidates, projects, fetched)) \<and>
            length fetched = length candidates \<and>
            found_deployments f =
              map (\<lambda>d. d\<lparr>aliases_of := Some []\<rparr>)
                (map fst (filter (\<lambda>(d, a). a = []) (zip candidates fetched))))"
proof -
  from discover_Inr [OF assms(1)] assms(2) obtain t ds ps als where
    r: "resolve env True (found_contextName f) (found_ids f) = (t, Inr (ds, ps, als))" and
    d: "found_deployments f = filterAliases True ds als"
    by auto
  have "length als = length ds" using r by (rule resolve_length)
  with r d show ?thesis by (auto simp: filterAliases_safe)
qed

theorem safe_removal_set_alias_free_witness:
  "found_safe (projr (discover safeRun)) \<and>
   map id_of (found_deployments (projr (discover safeRun))) =
     [Some ''abc123'', Some ''dpl_0'', Some ''dpl_2''] \<and>
   list_all (\<lambda>d. aliases_of d = Some []) (found_deployments (projr (discover safeRun)))"
proof -
  have 1: "discover safeRun = Inr (projr (discover safeRun))" by code_simp
  have 2: "found_safe (projr (discover safeRun))" by code_simp
  have 3: "map id_of (found_deployments (projr (discover safeRun))) =
             [Some ''abc123'', Some ''dpl_0'', Some ''dpl_2'']" by code_simp
  from safe_removal_set_alias_free [OF 1 2] 2 3 show ?thesis
    unfolding list_all_iff by blast
qed

text \<open>
  Claim C2, amended. With a context name, a rejected deployment lookup is caught
  and never ends the batch: when no project lookup is rejected, the batch gives the
  matches, identifier by identifier. A value that is a \<open>NowError\<close> or no object,
  whether a deployment lookup was rejected with it or a project lookup returned it,
  contributes no match. A rejected project lookup is not caught: it rejects the batch.
\<close>

theorem lookup_failures_tolerated:
  assumes "contextName \<noteq> []"
  shows "((\<forall>i \<in> set ids. \<exists>v. getProjectByIdOrName env i = Fulfilled v) \<longrightarrow>
            lookup env contextName ids =
              (map (\<lambda>i. Call (GetDeployment contextName i)) ids @
               map (\<lambda>i. Call (GetProjectByIdOrName i)) ids,
               Inr (concat (map (\<lambda>i. matches env ids (catchErr (getDeployment env contextName i)))
                              ids),
                    concat (map (\<lambda>i. case getProjectByIdOrName env i of
                                         Fulfilled v \<Rightarrow> matches env ids v
                                       | Rejected e \<Rightarrow> []) ids)))) \<and>
         (\<forall>i e. getDeployment env contextName i = Rejected e \<longrightarrow> typedFailure e \<longrightarrow>
            matches env ids (catchErr (getDeployment env contextName i)) = []) \<and>
         (\<forall>i v. getProjectByIdOrName env i = Fulfilled v \<longrightarrow> typedFailure v \<longrightarrow>
            matches env ids v = []) \<and>
         ((\<exists>i \<in> set ids. \<exists>e. getProjectByIdOrName env i = Rejected e) \<longrightarrow>
            (\<exists>e. snd (lookup env contextName ids) = Inl (Rejection e)))"
proof -
  have "lookup env contextName ids =
          (map (\<lambda>i. Call (GetDeployment contextName i)) ids @
           map (\<lambda>i. Call (GetProjectByIdOrName i)) ids,
           Inr (concat (map (\<lambda>i. matches env ids (catchErr (getDeployment env contextName i)))
                          ids),
                concat (map (\<lambda>i. case getProjectByIdOrName env i of
                                     Fulfilled v \<Rightarrow> matches env ids v
                                   | Rejected e \<Rightarrow> []) ids)))"
    if all: "\<forall>i \<in> set ids. \<exists>v. getProjectByIdOrName env i = Fulfilled v"
  proof -
    have "map (\<lambda>x. matches env ids (case getProjectByIdOrName env x of Fulfilled v \<Rightarrow> v)) ids =
          map (\<lambda>i. case getProjectByIdOrName env i of
                      Fulfilled v \<Rightarrow> matches env ids v
                    | Rejected e \<Rightarrow> []) ids"
      using all by (intro map_cong) auto
    then have "concat (map (\<lambda>x. matches env ids
                                  (case getProjectByIdOrName env x of Fulfilled v \<Rightarrow> v)) ids) =
               concat (map (\<lambda>i. case getProjectByIdOrName env i of
                                   Fulfilled v \<Rightarrow> matches env ids v
                                 | Rejected e \<Rightarrow> []) ids)"
      by (rule arg_cong)
    moreover have "lookup env contextName ids =
          (map (\<lambda>i. Call (GetDeployment contextName i)) ids @
           map (\<lambda>i. Call (GetProjectByIdOrName i)) ids,
           Inr (concat (map (\<lambda>i. matches env ids (catchErr (getDeployment env contextName i)))
                          ids),
                concat (map (\<lambda>x. matches env ids
                                   (case getProjectByIdOrName env x of Fulfilled v \<Rightarrow> v)) ids)))"
      using assms
      by (simp add: lookup_def Let_def promiseAll_all_fulfilled [OF all] matched_objects)
    ultimately show ?thesis by (simp only:)
  qed
  moreover have "\<exists>e. snd (lookup env contextName ids) = Inl (Rejection e)"
    if "\<exists>i \<in> set ids. \<exists>e. getProjectByIdOrName env i = Rejected e"
  proof -
    from that obtain e where "Rejected e \<in> set (map (getProjectByIdOrName env) ids)"
      by (metis image_eqI list.set_map)
    from promiseAll_rejected [OF this] show ?thesis
      using assms by (auto simp: lookup_def Let_def)
  qed
  ultimately show ?thesis
    by (auto simp: catchErr_def typedFailure_matches)
qed

theorem lookup_failures_tolerated_witness:
  "getDeployment plainRun ''acme'' ''ghost'' = Rejected (Some notFound) \<and>
   getProjectByIdOrName plainRun ''ghost'' = Fulfilled (Some notFound) \<and>
   typedFailure (Some notFound) \<and>
   lookup plainRun ''acme'' [''abc123'', ''ghost''] =
     ([Call (GetDeployment ''acme'' ''abc123''), Call (GetDeployment ''acme'' ''ghost''),
       Call (GetProjectByIdOrName ''abc123''), Call (GetProjectByIdOrName ''ghost'')],
      Inr ([deployment ''abc123'' ''api''], []))"
proof -
  have c: "''acme'' \<noteq> []" by simp
  have h: "\<forall>i \<in> set [''abc123'', ''ghost'']. \<exists>v. getProjectByIdOrName plainRun i = Fulfilled v"
    by (simp add: plainRun_def sampleEnv_def)
  have 1: "getDeployment plainRun ''acme'' ''ghost'' = Rejected (Some notFound)"
    "getProjectByIdOrName plainRun ''ghost'' = Fulfilled (Some notFound)"
    "typedFailure (Some notFound)"
    by (simp_all add: plainRun_def sampleEnv_def typedFailure_def notFound_def)
  have 2: "concat (map (\<lambda>i. matches plainRun [''abc123'', ''ghost'']
                             (catchErr (getDeployment plainRun ''acme'' i)))
                     [''abc123'', ''ghost'']) = [deployment ''abc123'' ''api'']"
    by code_simp
  have 3: "concat (map (\<lambda>i. case getProjectByIdOrName plainRun i of
                             Fulfilled v \<Rightarrow> matches plainRun [''abc123'', ''ghost''] v
                           | Rejected e \<Rightarrow> []) [''abc123'', ''ghost'']) = []"
    by code_simp
  from lookup_failures_tolerated [OF c, of "[''abc123'', ''ghost'']" plainRun] h
  have "lookup plainRun ''acme'' [''abc123'', ''ghost''] =
     (map (\<lambda>i. Call (GetDeployment ''acme'' i)) [''abc123'', ''ghost''] @
      map (\<lambda>i. Call (GetProjectByIdOrName i)) [''abc123'', ''ghost''],
      Inr (concat (map (\<lambda>i. matches plainRun [''abc123'', ''ghost'']
                             (catchErr (getDeployment plainRun ''acme'' i)))
                     [''abc123'', ''ghost'']),
           concat (map (\<lambda>i. case getProjectByIdOrName plainRun i of
                             Fulfilled v \<Rightarrow> matches plainRun [''abc123'', ''ghost''] v
                           | Rejected e \<Rightarrow> []) [''abc123'', ''ghost''])))"
    by blast
  with 1 show ?thesis unfolding 2 3 by simp
qed

text \<open>
  Claim C2 as stated fails twice. A rejected project lookup ends the run with the
  rejection, and the deployment that was found is not deleted. And a deployment
  lookup rejected with a plain \<open>Error\<close> is a match for the identifier \<open>Error\<close>,
  through the \<open>name\<close> of the error object.
\<close>

theorem rejected_project_lookup_counterexample:
  "getProjectByIdOrName flakyRun ''my-app'' = Rejected (Some plainError) \<and>
   snd (lookup flakyRun ''acme'' [''abc123'', ''my-app'']) = Inl (Rejection (Some plainError)) \<and>
   outcome (main flakyRun) = Threw (Rejection (Some plainError)) \<and>
   filter isDeletion (trace (main flakyRun)) = [] \<and>
   getDeployment errorRun ''acme'' ''Error'' = Rejected (Some plainError) \<and>
   fst (projr (snd (lookup errorRun ''acme'' [''Error'']))) = [plainError] \<and>
   filter isDeletion (trace (main errorRun)) = [Call (NowRemove None False)]"
  by code_simp




text \<open>
  Claim C4. Under \<open>--safe\<close> the project removal set is empty after the resolution,
  whatever the identifiers and the answers of the lookups, and the run issues no
  project deletion.
\<close>

theorem safe_project_set_empty:
  assumes "discover env = Inr f" and "found_safe f"
  shows "found_projects f = [] \<and> (\<forall>i. Call (RemoveProject i) \<notin> set (trace (main env)))"
proof -
  from discover_Inr [OF assms(1)] assms(2) have ps: "found_projects f = []"
    by (auto dest: resolve_safe_projects)
  have "Call (RemoveProject i) \<notin> set (trace (main env))" for i
  proof
    assume "Call (RemoveProject i) \<in> set (trace (main env))"
    then have "Call (RemoveProject i) \<in> set (filter isDeletion (trace (main env)))"
      by simp
    then have "Call (RemoveProject i) \<in> set (filter isDeletion (trace (conclude env f)))"
      using main_found [OF assms(1)] discover_no_deletion [OF assms(1)] by simp
    then have m: "Call (RemoveProject i) \<in> set (filter isDeletion (trace (conclude env f)))" .
    from conclude_deletions [of env f] show False
    proof
      assume e: "filter isDeletion (trace (conclude env f)) = []"
      from m [unfolded e] show False by simp
    next
      assume e: "filter isDeletion (trace (conclude env f)) =
        map (\<lambda>d. Call (NowRemove (id_of d) (found_hard f))) (found_deployments f) @
        map (\<lambda>p. Call (RemoveProject (id_of p))) (found_projects f)"
      from m [unfolded e] ps show False by auto
    qed
  qed
  with ps show ?thesis by simp
qed

theorem safe_project_set_empty_witness:
  "found_safe (projr (discover safeRun)) \<and>
   found_projects (projr (discover safeRun)) = [] \<and>
   filter isDeletion (trace (main safeRun)) =
     [Call (NowRemove (Some ''abc123'') False), Call (NowRemove (Some ''dpl_0'') False),
      Call (NowRemove (Some ''dpl_2'') False)] \<and>
   Call (RemoveProject (Some ''prj_1'')) \<notin> set (trace (main safeRun))"
proof -
  have 1: "discover safeRun = Inr (projr (discover safeRun))" by code_simp
  have 2: "found_safe (projr (discover safeRun))" by code_simp
  have 3: "filter isDeletion (trace (main safeRun)) =
     [Call (NowRemove (Some ''abc123'') False), Call (NowRemove (Some ''dpl_0'') False),
      Call (NowRemove (Some ''dpl_2'') False)]" by code_simp
  from safe_project_set_empty [OF 1 2] 2 3 show ?thesis by blast
qed

text \<open>
  Claim C5. Without \<open>--safe\<close>, no deployment of the final removal set has the name
  of a project of the final removal set: the set is, up to the alias lists attached
  afterwards, the matched deployments without those whose name is the name of a
  matched project.
\<close>

theorem plain_removal_sets_no_shared_name:
  assumes "discover env = Inr f" and "\<not> found_safe f"
  shows "(\<forall>d \<in> set (found_deployments f). \<forall>p \<in> set (found_projects f).
            name_of d \<noteq> name_of p) \<and>
         (\<exists>t matched.
            lookup env (found_contextName f) (found_ids f) =
              (t, Inr (matched, found_projects f)) \<and>
            map (\<lambda>d. d\<lparr>aliases_of := None\<rparr>) (found_deployments f) =
              map (\<lambda>d. d\<lparr>aliases_of := None\<rparr>)
                (filter (\<lambda>d. name_of d \<notin> name_of ` set (found_projects f)) matched))"
proof -
  from discover_Inr [OF assms(1)] assms(2) obtain t ds als where
    r: "resolve env False (found_contextName f) (found_ids f) =
          (t, Inr (ds, found_projects f, als))" and
    d: "found_deployments f = filterAliases False ds als"
    by auto
  from resolve_unsafe [OF r] obtain t1 matched where
    l: "lookup env (found_contextName f) (found_ids f) = (t1, Inr (matched, found_projects f))"
    and ds: "ds = filter (\<lambda>d. name_of d \<notin> name_of ` set (found_projects f)) matched"
    and len: "length als = length ds"
    by blast
  have "name_of x \<noteq> name_of p"
    if "x \<in> set (found_deployments f)" and "p \<in> set (found_projects f)" for x p
  proof -
    from that(1) have "name_of x \<in> name_of ` set ds"
      unfolding d filterAliases_unsafe by (rule name_of_zip)
    then obtain y where y: "y \<in> set ds" "name_of x = name_of y" by auto
    from y(1) have "name_of y \<notin> name_of ` set (found_projects f)"
      unfolding ds by simp
    moreover from that(2) have "name_of p \<in> name_of ` set (found_projects f)"
      by (rule imageI)
    ultimately show ?thesis using y(2) by metis
  qed
  moreover have "map (\<lambda>d. d\<lparr>aliases_of := None\<rparr>) (found_deployments f) =
      map (\<lambda>d. d\<lparr>aliases_of := None\<rparr>) ds"
    unfolding d filterAliases_unsafe using len by (rule forget_aliases_zip)
  ultimately show ?thesis using l ds by blast
qed

theorem plain_removal_sets_no_shared_name_witness:
  "\<not> found_safe (projr (discover plainRun)) \<and>
   map name_of (found_deployments (projr (discover plainRun))) = [Some ''api''] \<and>
   map name_of (found_projects (projr (discover plainRun))) = [Some ''my-app''] \<and>
   list_all (\<lambda>d. list_all (\<lambda>p. name_of d \<noteq> name_of p)
                    (found_projects (projr (discover plainRun))))
     (found_deployments (projr (discover plainRun)))"
proof -
  have 1: "discover plainRun = Inr (projr (discover plainRun))" by code_simp
  have 2: "\<not> found_safe (projr (discover plainRun))" by code_simp
  have 3: "map name_of (found_deployments (projr (discover plainRun))) = [Some ''api'']"
    by code_simp
  have 4: "map name_of (found_projects (projr (discover plainRun))) = [Some ''my-app'']"
    by code_simp
  from plain_removal_sets_no_shared_name [OF 1 2] 2 3 4 show ?thesis
    unfolding list_all_iff by blast
qed

text \<open>
  Claim C6, amended. When the prompt is not skipped and its table can be drawn
  (every deployment to list has a creation time), the prompt resolves with the text
  read from standard input, trimmed of surrounding white space. That text is
  lowercased and compared with \<open>y\<close> and \<open>yes\<close>: on equality the deletions are
  issued; otherwise the run prints \<open>Canceled\<close>, returns 1 and issues no deletion.
  The inputs \<open>y\<close>, \<open>Y\<close>, \<open>yes\<close>, \<open>YES\<close> are accepted; the empty line, \<open>n\<close> and
  \<open>maybe\<close> are not.
\<close>

theorem confirmation_decides:
  assumes "discover env = Inr f"
    and "found_deployments f \<noteq> [] \<or> found_projects f \<noteq> []"
    and "\<not> found_skipConfirmation f"
    and "\<forall>x \<in> set (found_deployments f). createdAt_of x \<noteq> None"
    and "stdinData env = Some d"
  shows "snd (readConfirmation env (found_deployments f) (found_projects f)) =
           Resolved (trim d) \<and>
         (toLowerCase (trim d) = ''y'' \<or> toLowerCase (trim d) = ''yes'' \<longrightarrow>
            outcome (main env) =
              outcome (execute env (found_hard f) (found_deployments f) (found_projects f)) \<and>
            filter isDeletion (trace (main env)) =
              map (\<lambda>d. Call (NowRemove (id_of d) (found_hard f))) (found_deployments f) @
              map (\<lambda>p. Call (RemoveProject (id_of p))) (found_projects f)) \<and>
         (toLowerCase (trim d) \<noteq> ''y'' \<and> toLowerCase (trim d) \<noteq> ''yes'' \<longrightarrow>
            outcome (main env) = Returned 1 \<and>
            filter isDeletion (trace (main env)) = [] \<and>
            last (trace (main env)) = OutLog ''Canceled'') \<and>
         (d \<in> {''y'', ''Y'', ''yes'', ''YES''} \<longrightarrow>
            toLowerCase (trim d) = ''y'' \<or> toLowerCase (trim d) = ''yes'') \<and>
         (d \<in> {'''', ''n'', ''maybe''} \<longrightarrow>
            toLowerCase (trim d) \<noteq> ''y'' \<and> toLowerCase (trim d) \<noteq> ''yes'')"
proof -
  note m = main_found [OF assms(1)] and n = discover_no_deletion [OF assms(1)]
  have r: "snd (readConfirmation env (found_deployments f) (found_projects f)) =
      Resolved (trim d)"
    using assms(4) discover_aliases_defined [OF assms(1)] assms(5)
    by (rule readConfirmation_line)
  have "outcome (main env) =
          outcome (execute env (found_hard f) (found_deployments f) (found_projects f)) \<and>
        filter isDeletion (trace (main env)) =
          map (\<lambda>d. Call (NowRemove (id_of d) (found_hard f))) (found_deployments f) @
          map (\<lambda>p. Call (RemoveProject (id_of p))) (found_projects f)"
    if "toLowerCase (trim d) = ''y'' \<or> toLowerCase (trim d) = ''yes''"
    using conclude_accepted [OF assms(2) r that] m n by simp
  moreover have "outcome (main env) = Returned 1 \<and>
        filter isDeletion (trace (main env)) = [] \<and>
        last (trace (main env)) = OutLog ''Canceled''"
    if "toLowerCase (trim d) \<noteq> ''y''" and "toLowerCase (trim d) \<noteq> ''yes''"
  proof -
    from conclude_declined [OF assms(2,3) r that] m n show ?thesis by simp
  qed
  moreover have "toLowerCase (trim d) = ''y'' \<or> toLowerCase (trim d) = ''yes''"
    if "d \<in> {''y'', ''Y'', ''yes'', ''YES''}"
  proof -
    have "toLowerCase (trim ''y'') = ''y''" "toLowerCase (trim ''Y'') = ''y''"
      "toLowerCase (trim ''yes'') = ''yes''" "toLowerCase (trim ''YES'') = ''yes''"
      by code_simp+
    with that show ?thesis by auto
  qed
  moreover have "toLowerCase (trim d) \<noteq> ''y'' \<and> toLowerCase (trim d) \<noteq> ''yes''"
    if "d \<in> {'''', ''n'', ''maybe''}"
  proof -
    have "toLowerCase (trim '''') = ''''" "toLowerCase (trim ''n'') = ''n''"
      "toLowerCase (trim ''maybe'') = ''maybe''"
      by code_simp+
    with that show ?thesis by auto
  qed
  ultimately show ?thesis using r by blast
qed

theorem confirmation_decides_witness:
  "\<not> found_skipConfirmation (projr (discover declinedRun)) \<and>
   stdinData declinedRun = Some ''maybe'' \<and>
   outcome (main declinedRun) = Returned 1 \<and>
   filter isDeletion (trace (main declinedRun)) = [] \<and>
   last (trace (main declinedRun)) = OutLog ''Canceled''"
proof -
  have 1: "discover declinedRun = Inr (projr (discover declinedRun))" by code_simp
  have 2: "found_deployments (projr (discover declinedRun)) \<noteq> [] \<or>
           found_projects (projr (discover declinedRun)) \<noteq> []" by code_simp
  have 3: "\<not> found_skipConfirmation (projr (discover declinedRun))" by code_simp
  have 4: "stdinData declinedRun = Some ''maybe''"
    by (simp add: declinedRun_def sampleEnv_def)
  have 5: "toLowerCase (trim ''maybe'') \<noteq> ''y'' \<and> toLowerCase (trim ''maybe'') \<noteq> ''yes''"
    by code_simp
  have 6: "\<forall>x \<in> set (found_deployments (projr (discover declinedRun))). createdAt_of x \<noteq> None"
    by code_simp
  from confirmation_decides [OF 1 2 3 6 4] 3 4 5 show ?thesis by blast
qed

text \<open>
  Claim C6 as stated fails: the input \<open>yes\<close> after a space and before a line feed is
  none of the four tokens, and its lowercase form is neither \<open>y\<close> nor \<open>yes\<close>, yet
  the run deletes.
\<close>

theorem untrimmed_comparison_counterexample:
  "\<not> found_skipConfirmation (projr (discover newlineRun)) \<and>
   stdinData newlineRun = Some ('' yes'' @ [CHR 0x0A]) \<and>
   '' yes'' @ [CHR 0x0A] \<notin> {''y'', ''Y'', ''yes'', ''YES''} \<and>
   toLowerCase ('' yes'' @ [CHR 0x0A]) \<noteq> ''y'' \<and>
   toLowerCase ('' yes'' @ [CHR 0x0A]) \<noteq> ''yes'' \<and>
   outcome (main newlineRun) = Returned 0 \<and>
   filter isDeletion (trace (main newlineRun)) = [Call (NowRemove (Some ''abc123'') False)]"
  by code_simp

text \<open>
  Claim C7. When both removal sets are empty after the filters, the run ends with
  the "Could not find" message, which says \<open>unaliased\<close> under \<open>--safe\<close> and
  \<open>any\<close> otherwise, returns exit code 1 and has issued no deletion.
\<close>

theorem nothing_found_exit:
  assumes "discover env = Inr f"
    and "found_deployments f = []" and "found_projects f = []"
  shows "outcome (main env) = Returned 1 \<and>
         trace (main env) =
           found_events f @
           [OutLog (''Could not find '' @ (if found_safe f then ''unaliased'' else ''any'') @
                    '' deployments or projects matching '' @
                    join '', '' (map (\<lambda>i. chalkBold env (quoted i)) (found_ids f)) @
                    ''. Run '' @ getCommandName env ''ls'' @ '' to list.'')] \<and>
         filter isDeletion (trace (main env)) = []"
  using main_found [OF assms(1)] discover_no_deletion [OF assms(1)]
    conclude_empty [OF assms(2,3), of env]
  by (simp add: notFoundMessage_def)

theorem nothing_found_exit_witness:
  "found_deployments (projr (discover ghostRun)) = [] \<and>
   found_projects (projr (discover ghostRun)) = [] \<and>
   outcome (main ghostRun) = Returned 1 \<and>
   last (trace (main ghostRun)) =
     OutLog (''Could not find unaliased deployments or projects matching '' @
             quoted ''ghost'' @ ''. Run vercel ls to list.'') \<and>
   filter isDeletion (trace (main ghostRun)) = []"
proof -
  have 1: "discover ghostRun = Inr (projr (discover ghostRun))" by code_simp
  have 2: "found_deployments (projr (discover ghostRun)) = []" by code_simp
  have 3: "found_projects (projr (discover ghostRun)) = []" by code_simp
  have 4: "found_safe (projr (discover ghostRun))" by code_simp
  have 5: "found_ids (projr (discover ghostRun)) = [''ghost'']" by code_simp
  have 6: "chalkBold ghostRun = (\<lambda>s. s)" "getCommandName ghostRun ''ls'' = ''vercel ls''"
    by (simp_all add: ghostRun_def sampleEnv_def)
  note c = nothing_found_exit [OF 1 2 3, unfolded 5 6]
  from c have "last (trace (main ghostRun)) =
     OutLog (''Could not find unaliased deployments or projects matching '' @
             quoted ''ghost'' @ ''. Run vercel ls to list.'')"
    using 4 by simp
  with c 2 3 show ?thesis by blast
qed

text \<open>
  Claim C8, amended. When the arguments parse, help is not asked for (neither the
  flag nor \<open>help\<close> as first identifier) and the first identifier that fails the
  validator is not the empty string, the run prints the error for that identifier
  and returns 1 without a single request.
\<close>

theorem invalid_identifier_rejected:
  assumes "getArgs env = Fulfilled a"
    and "\<not> opt_help a"
    and "take 1 (drop 1 (positional a)) \<noteq> [''help'']"
    and "List.find (\<lambda>name. \<not> isValidName env name) (drop 1 (positional a)) = Some invalidName"
    and "invalidName \<noteq> []"
  shows "main env =
           \<lparr>outcome = Returned 1,
            trace = [OutError (''The provided argument '' @ quoted invalidName @
                               '' is not a valid deployment or project'')]\<rparr> \<and>
         filter isRequest (trace (main env)) = []"
proof -
  from assms(4) have "drop 1 (positional a) \<noteq> []" by auto
  with assms show ?thesis
    by (simp add: main_def discover_def Let_def str_def)
qed

theorem invalid_identifier_rejected_witness:
  "getArgs invalidRun = Fulfilled (sampleArgv False False [''abc123'', ''b@d'']) \<and>
   List.find (\<lambda>name. \<not> isValidName invalidRun name) [''abc123'', ''b@d''] = Some ''b@d'' \<and>
   main invalidRun =
     \<lparr>outcome = Returned 1,
      trace = [OutError (''The provided argument '' @ quoted ''b@d'' @
                         '' is not a valid deployment or project'')]\<rparr> \<and>
   filter isRequest (trace (main invalidRun)) = []"
proof -
  have 1: "getArgs invalidRun = Fulfilled (sampleArgv False False [''abc123'', ''b@d''])"
    by (simp add: invalidRun_def sampleEnv_def)
  have 2: "\<not> opt_help (sampleArgv False False [''abc123'', ''b@d''])"
    by (simp add: sampleArgv_def)
  have 3: "take 1 (drop 1 (positional (sampleArgv False False [''abc123'', ''b@d'']))) \<noteq>
           [''help'']"
    by (simp add: sampleArgv_def)
  have 4: "List.find (\<lambda>name. \<not> isValidName invalidRun name)
             (drop 1 (positional (sampleArgv False False [''abc123'', ''b@d'']))) = Some ''b@d''"
    by (simp add: sampleArgv_def invalidRun_def sampleEnv_def)
  have 5: "''b@d'' \<noteq> []" by simp
  from invalid_identifier_rejected [OF 1 2 3 4 5] 1 4 show ?thesis
    by (simp add: sampleArgv_def)
qed

text \<open>
  Claim C8 as stated fails: with \<open>help\<close> as first identifier the run shows the help
  and returns 2, whatever the other identifiers are.
\<close>

theorem help_before_validation_counterexample:
  "getArgs helpRun = Fulfilled (sampleArgv False False [''help'', ''b@d'']) \<and>
   drop 1 (positional (sampleArgv False False [''help'', ''b@d''])) = [''help'', ''b@d''] \<and>
   \<not> isValidName helpRun ''b@d'' \<and>
   main helpRun = \<lparr>outcome = Returned 2, trace = [Help]\<rparr>"
  by code_simp

text \<open>
  Claim C9. With more than 200 resolved deployments the run prints the warning and
  goes on: once the confirmation is skipped, or the prompt has resolved with a line
  that is \<open>y\<close> or \<open>yes\<close> in lower case, the deletions issued are one for every
  deployment and one for every project of the resolved sets, with no cap.
\<close>

theorem volume_warning_leaves_execution:
  assumes "discover env = Inr f"
  shows "(200 < length (found_deployments f) \<longrightarrow>
            OutWarn volumeWarning \<in> set (trace (main env))) \<and>
         ((found_deployments f \<noteq> [] \<or> found_projects f \<noteq> []) \<and>
          (found_skipConfirmation f \<or>
           (\<exists>line. snd (readConfirmation env (found_deployments f) (found_projects f)) =
                     Resolved line \<and>
                   (toLowerCase line = ''y'' \<or> toLowerCase line = ''yes''))) \<longrightarrow>
            outcome (main env) =
              outcome (execute env (found_hard f) (found_deployments f) (found_projects f)) \<and>
            filter isDeletion (trace (main env)) =
              map (\<lambda>d. Call (NowRemove (id_of d) (found_hard f))) (found_deployments f) @
              map (\<lambda>p. Call (RemoveProject (id_of p))) (found_projects f))"
proof -
  note m = main_found [OF assms] and n = discover_no_deletion [OF assms]
  have "OutWarn volumeWarning \<in> set (trace (main env))"
    if "200 < length (found_deployments f)"
    using conclude_warns [OF that, of env] m by simp
  moreover have "outcome (main env) =
        outcome (execute env (found_hard f) (found_deployments f) (found_projects f)) \<and>
      filter isDeletion (trace (main env)) =
        map (\<lambda>d. Call (NowRemove (id_of d) (found_hard f))) (found_deployments f) @
        map (\<lambda>p. Call (RemoveProject (id_of p))) (found_projects f)"
    if ne: "found_deployments f \<noteq> [] \<or> found_projects f \<noteq> []"
      and ok: "found_skipConfirmation f \<or>
           (\<exists>line. snd (readConfirmation env (found_deployments f) (found_projects f)) =
                     Resolved line \<and>
                   (toLowerCase line = ''y'' \<or> toLowerCase line = ''yes''))"
  proof (cases "found_skipConfirmation f")
    case True
    from conclude_skipped [OF ne True, of env] m n show ?thesis by simp
  next
    case False
    with ok obtain line where
      "snd (readConfirmation env (found_deployments f) (found_projects f)) = Resolved line"
      "toLowerCase line = ''y'' \<or> toLowerCase line = ''yes''" by blast
    from conclude_accepted [OF ne this] m n show ?thesis by simp
  qed
  ultimately show ?thesis by blast
qed

theorem volume_warning_leaves_execution_witness:
  "200 < length (found_deployments (projr (discover bulkRun))) \<and>
   found_skipConfirmation (projr (discover bulkRun)) \<and>
   OutWarn volumeWarning \<in> set (trace (main bulkRun)) \<and>
   outcome (main bulkRun) = Returned 0 \<and>
   filter isDeletion (trace (main bulkRun)) =
     replicate 201 (Call (NowRemove (Some ''abc123'') False))"
proof -
  from discover_bulk [of 201] obtain es where
    d: "discover bulkRun =
         Inr \<lparr>found_hard = False, found_skipConfirmation = True, found_safe = False,
              found_ids = replicate 201 ''abc123'', found_contextName = ''acme'',
              found_deployments =
                replicate 201 ((deployment ''abc123'' ''api'')\<lparr>aliases_of := Some []\<rparr>),
              found_projects = [], found_events = es\<rparr>"
    unfolding bulkRun_def by auto
  have e: "outcome (execute bulkRun False
              (replicate 201 ((deployment ''abc123'' ''api'')\<lparr>aliases_of := Some []\<rparr>)) []) =
           Returned 0"
    by (simp add: execute_outcome bulkRun_def sampleEnv_def promiseAll_replicate)
  from volume_warning_leaves_execution [OF d] e show ?thesis
    by (simp add: d deployment_def)
qed

text \<open>
  Claim C10. The line read from standard input is trimmed before it is lowercased
  and compared: when the prompt is drawn and the input is an answer that is \<open>y\<close> or
  \<open>yes\<close> up to case, with white space around it, the prompt resolves with the
  answer alone, the answer is accepted and the deletions are issued.
\<close>

theorem padded_answer_accepted:
  assumes "discover env = Inr f"
    and "found_deployments f \<noteq> [] \<or> found_projects f \<noteq> []"
    and "\<not> found_skipConfirmation f"
    and "\<forall>x \<in> set (found_deployments f). createdAt_of x \<noteq> None"
    and "stdinData env = Some (lead @ answer @ trail)"
    and "\<forall>c \<in> set lead. isWhiteSpace c" and "\<forall>c \<in> set trail. isWhiteSpace c"
    and "toLowerCase answer = ''y'' \<or> toLowerCase answer = ''yes''"
  shows "trim (lead @ answer @ trail) = answer \<and>
         snd (readConfirmation env (found_deployments f) (found_projects f)) =
           Resolved answer \<and>
         outcome (main env) =
           outcome (execute env (found_hard f) (found_deployments f) (found_projects f)) \<and>
         filter isDeletion (trace (main env)) =
           map (\<lambda>d. Call (NowRemove (id_of d) (found_hard f))) (found_deployments f) @
           map (\<lambda>p. Call (RemoveProject (id_of p))) (found_projects f)"
proof -
  from accepted_shape [OF assms(8)] have t: "trim (lead @ answer @ trail) = answer"
    by (intro trim_padding assms(6,7)) auto
  have "snd (readConfirmation env (found_deployments f) (found_projects f)) =
      Resolved (trim (lead @ answer @ trail))"
    using assms(4) discover_aliases_defined [OF assms(1)] assms(5)
    by (rule readConfirmation_line)
  then have r: "snd (readConfirmation env (found_deployments f) (found_projects f)) =
      Resolved answer"
    by (simp only: t)
  from conclude_accepted [OF assms(2) r assms(8)]
    main_found [OF assms(1)] discover_no_deletion [OF assms(1)] t r
  show ?thesis by simp
qed

theorem padded_answer_accepted_witness:
  "\<not> found_skipConfirmation (projr (discover paddedRun)) \<and>
   stdinData paddedRun = Some (''  '' @ ''Y'' @ ''  '') \<and>
   trim (''  '' @ ''Y'' @ ''  '') = ''Y'' \<and>
   snd (readConfirmation paddedRun (found_deployments (projr (discover paddedRun)))
          (found_projects (projr (discover paddedRun)))) = Resolved ''Y'' \<and>
   outcome (main paddedRun) = Returned 0 \<and>
   filter isDeletion (trace (main paddedRun)) = [Call (NowRemove (Some ''abc123'') False)]"
proof -
  have 1: "discover paddedRun = Inr (projr (discover paddedRun))" by code_simp
  have 2: "found_deployments (projr (discover paddedRun)) \<noteq> [] \<or>
           found_projects (projr (discover paddedRun)) \<noteq> []" by code_simp
  have 3: "\<not> found_skipConfirmation (projr (discover paddedRun))" by code_simp
  have 4: "stdinData paddedRun = Some (''  '' @ ''Y'' @ ''  '')"
    by (simp add: paddedRun_def sampleEnv_def)
  have 5: "\<forall>c \<in> set ''  ''. isWhiteSpace c" by (simp add: isWhiteSpace_def)
  have 6: "toLowerCase ''Y'' = ''y'' \<or> toLowerCase ''Y'' = ''yes''" by code_simp
  have 7: "outcome (execute paddedRun (found_hard (projr (discover paddedRun)))
             (found_deployments (projr (discover paddedRun)))
             (found_projects (projr (discover paddedRun)))) = Returned 0" by code_simp
  have 8: "map (\<lambda>d. Call (NowRemove (id_of d) (found_hard (projr (discover paddedRun)))))
             (found_deployments (projr (discover paddedRun))) @
           map (\<lambda>p. Call (RemoveProject (id_of p))) (found_projects (projr (discover paddedRun))) =
           [Call (NowRemove (Some ''abc123'') False)]" by code_simp
  have 9: "\<forall>x \<in> set (found_deployments (projr (discover paddedRun))). createdAt_of x \<noteq> None"
    by code_simp
  from padded_answer_accepted [OF 1 2 3 9 4 5 5 6] 3 4 show ?thesis
    unfolding 7 8 by blast
qed

end
